theory Spec2Isabelle
  imports Main
begin

section \<open>The user-management example (user\_good\_example.cpp)\<close>

text \<open>
  The model follows \<^verbatim>\<open>src/cpp/user_example/user_good_example.cpp\<close>.
  Strings are \<open>std::string\<close>, that is byte lists (\<^typ>\<open>string\<close>).
  The two pieces of mutable state of the program are the repository's
  \<open>std::map<std::string, User> users\<close> and the standard output stream; both are
  fields of the record \<open>world\<close> that every operation takes and returns.
  A C++ exception is a value of type \<open>exn\<close>; an operation that can throw
  returns \<open>exn + 'a\<close> (\<open>Inl\<close> the exception) together with the world
  as it is when the exception leaves the operation.
\<close>

subsection \<open>Data\<close>

text \<open>\<open>struct User\<close>. The field \<open>id\<close> is called \<open>userId\<close> here,
  since \<open>id\<close> is the identity function of HOL.\<close>

record User =
  userId :: string
  name :: string
  email :: string
  isActive :: bool

text \<open>The default constructor \<open>User()\<close>, which \<open>std::map::operator[]\<close> uses
  for a key that is not yet in the map.\<close>

definition User_default :: User where
  "User_default = \<lparr>userId = [], name = [], email = [], isActive = True\<rparr>"

text \<open>The exceptions thrown by the program, each with its \<open>what()\<close> message.\<close>

datatype exn = invalid_argument string | out_of_range string

record world =
  users :: "string \<rightharpoonup> User"
  cout :: string

abbreviation DQ :: char where
  "DQ \<equiv> CHR 0x22"

abbreviation BSLASH :: char where
  "BSLASH \<equiv> CHR 0x5C"

definition print :: "string \<Rightarrow> world \<Rightarrow> world" where
  "print s w = w\<lparr>cout := cout w @ s\<rparr>"

text \<open>\<open>std::string::find(char)\<close>: the index of the first occurrence,
  \<open>None\<close> for \<open>npos\<close>.\<close>

fun string_find :: "string \<Rightarrow> char \<Rightarrow> nat option" where
  "string_find [] c = None"
| "string_find (x # xs) c =
     (if x = c then Some 0 else map_option Suc (string_find xs c))"

text \<open>\<open>std::map::operator[]\<close>: the value under the key; a key that is absent is
  first inserted with a default-constructed value.\<close>

definition map_subscript :: "(string \<rightharpoonup> User) \<Rightarrow> string \<Rightarrow> User \<times> (string \<rightharpoonup> User)" where
  "map_subscript m k =
     (case m k of
        Some v \<Rightarrow> (v, m)
      | None \<Rightarrow> (User_default, m(k \<mapsto> User_default)))"

subsection \<open>InMemoryUserRepository\<close>

text \<open>\<open>save\<close>: \<open>users[user.id] = user; return users[user.id];\<close>\<close>

definition save :: "User \<Rightarrow> world \<Rightarrow> User \<times> world" where
  "save user w =
     (let w1 = print (''UserRepository: Saving user '' @ name user @ '' ('' @ userId user
                       @ '') to in-memory store...\<newline>'') w;
          (old, m1) = map_subscript (users w1) (userId user);
          m2 = m1(userId user \<mapsto> user);
          (stored, m3) = map_subscript m2 (userId user)
      in (stored, w1\<lparr>users := m3\<rparr>))"

text \<open>\<open>findById\<close> returns a pointer to the map node under the key \<open>userId\<close>, or
  \<open>nullptr\<close>. The model returns the contents of that node (\<open>None\<close> for
  \<open>nullptr\<close>); a caller that writes through the pointer updates the map at the key
  \<open>userId\<close> (see \<open>activateUser\<close>).\<close>

definition findById :: "string \<Rightarrow> world \<Rightarrow> User option \<times> world" where
  "findById uid w =
     (let w1 = print (''UserRepository: Finding user by ID: '' @ uid
                       @ '' from in-memory store.\<newline>'') w
      in (users w1 uid, w1))"

subsection \<open>UserValidatorImpl\<close>

definition validate :: "User \<Rightarrow> world \<Rightarrow> (exn + unit) \<times> world" where
  "validate user w =
     (let w1 = print (''UserValidator: Validating user '' @ name user @ '' ('' @ userId user
                       @ '')...\<newline>'') w
      in if name user = [] then
           (Inl (invalid_argument ''Validation Error: User name cannot be blank.''), w1)
         else if string_find (email user) (CHR ''@'') = None
                 \<or> string_find (email user) (CHR ''.'') = None then
           (Inl (invalid_argument
                   (''Validation Error: Invalid email format for '' @ email user @ ''.'')), w1)
         else (Inr (), print ''UserValidator: Validation successful.\<newline>'' w1))"

subsection \<open>UserPresenterImpl\<close>

definition formatForConsole :: "User \<Rightarrow> world \<Rightarrow> string \<times> world" where
  "formatForConsole user w =
     (let w1 = print (''UserPresenter: Formatting user '' @ name user @ '' ('' @ userId user
                       @ '') for console display...\<newline>'') w;
          status = (if isActive user then ''Active'' else ''Inactive'')
      in (''User ID: '' @ userId user @ ''\<newline>Name: '' @ name user
            @ ''\<newline>Email: '' @ email user @ ''\<newline>Status: '' @ status, w1))"

definition formatForJson :: "User \<Rightarrow> world \<Rightarrow> string \<times> world" where
  "formatForJson user w =
     (let w1 = print (''UserPresenter: Formatting user '' @ name user @ '' ('' @ userId user
                       @ '') for JSON display...\<newline>'') w;
          json = [CHR ''{'', DQ] @ ''id'' @ [DQ, CHR '':'', DQ] @ userId user
                 @ [DQ, CHR '','', CHR '' '', DQ] @ ''name'' @ [DQ, CHR '':'', DQ] @ name user
                 @ [DQ, CHR '','', CHR '' '', DQ] @ ''email'' @ [DQ, CHR '':'', DQ] @ email user
                 @ [DQ, CHR '','', CHR '' '', DQ] @ ''active'' @ [DQ, CHR '':'']
                 @ (if isActive user then ''true'' else ''false'') @ ''}''
      in (json, w1))"

subsection \<open>UserService\<close>

definition createUser :: "string \<Rightarrow> string \<Rightarrow> string \<Rightarrow> world \<Rightarrow> (exn + User) \<times> world" where
  "createUser uid nm em w =
     (let newUser = \<lparr>userId = uid, name = nm, email = em, isActive = True\<rparr>
      in case validate newUser w of
           (Inl e, w1) \<Rightarrow> (Inl e, w1)
         | (Inr u, w1) \<Rightarrow> (case save newUser w1 of (saved, w2) \<Rightarrow> (Inr saved, w2)))"

text \<open>The parameter \<open>format\<close> has the default argument \<open>"console"\<close>: a call
  that leaves it out is \<open>None\<close> here.\<close>

definition getFormattedUserDetails ::
    "string \<Rightarrow> string option \<Rightarrow> world \<Rightarrow> (exn + string) \<times> world" where
  "getFormattedUserDetails uid fmt w =
     (let format = (case fmt of None \<Rightarrow> ''console'' | Some f \<Rightarrow> f)
      in case findById uid w of
           (None, w1) \<Rightarrow> (Inl (out_of_range (''User with ID '' @ uid @ '' not found.'')), w1)
         | (Some user, w1) \<Rightarrow>
             if format = ''console'' then
               (case formatForConsole user w1 of (s, w2) \<Rightarrow> (Inr s, w2))
             else if format = ''json'' then
               (case formatForJson user w1 of (s, w2) \<Rightarrow> (Inr s, w2))
             else (Inl (invalid_argument (''Unsupported format: '' @ format)), w1))"

text \<open>\<open>activateUser\<close> writes \<open>isActive\<close> through the pointer that \<open>findById\<close>
  returned, that is into the map node under \<open>userId\<close>, and then saves the node's
  contents.\<close>

definition activateUser :: "string \<Rightarrow> world \<Rightarrow> (exn + User) \<times> world" where
  "activateUser uid w =
     (case findById uid w of
        (None, w1) \<Rightarrow> (Inl (out_of_range (''User with ID '' @ uid @ '' not found.'')), w1)
      | (Some user, w1) \<Rightarrow>
          (let user' = user\<lparr>isActive := True\<rparr>;
               w2 = w1\<lparr>users := (users w1)(uid \<mapsto> user')\<rparr>
           in case save user' w2 of (saved, w3) \<Rightarrow> (Inr saved, w3)))"

text \<open>A sequence of calls of the service, each run to its end; an exception leaves the
  world as the throwing operation left it (the demo driver catches it).\<close>

datatype request =
    CreateUser string string string
  | GetFormattedUserDetails string "string option"
  | ActivateUser string

fun handle :: "request \<Rightarrow> world \<Rightarrow> world" where
  "handle (CreateUser uid nm em) w = snd (createUser uid nm em w)"
| "handle (GetFormattedUserDetails uid fmt) w = snd (getFormattedUserDetails uid fmt w)"
| "handle (ActivateUser uid) w = snd (activateUser uid w)"

fun run :: "request list \<Rightarrow> world \<Rightarrow> world" where
  "run [] w = w"
| "run (r # rs) w = run rs (handle r w)"

subsection \<open>The specification's notions\<close>

text \<open>The specification's email shape: the email contains \<open>@\<close> and contains a
  \<open>.\<close> at a position after the \<open>@\<close>. (A \<open>.\<close> after some \<open>@\<close> is a
  \<open>.\<close> after the first \<open>@\<close>.)\<close>

definition spec_email_shape :: "string \<Rightarrow> bool" where
  "spec_email_shape em =
     (CHR ''.'' \<in> set (dropWhile (\<lambda>c. c \<noteq> CHR ''@'') em))"

text \<open>The specification's valid pair: non-empty name, email containing \<open>@\<close> then
  \<open>.\<close>.\<close>

definition spec_valid_pair :: "string \<Rightarrow> string \<Rightarrow> bool" where
  "spec_valid_pair nm em = (nm \<noteq> [] \<and> spec_email_shape em)"

subsection \<open>An invariant of the store\<close>

text \<open>Every stored record passes the two checks of \<open>validate\<close>: its name is
  not empty, and its email contains \<open>@\<close> and contains \<open>.\<close>.\<close>

definition stored_valid :: "world \<Rightarrow> bool" where
  "stored_valid w =
     (\<forall>k user. users w k = Some user \<longrightarrow>
        name user \<noteq> [] \<and> CHR ''@'' \<in> set (email user) \<and> CHR ''.'' \<in> set (email user))"

subsection \<open>Reading JSON text back\<close>

text \<open>
  The specification asks that the text of \<open>formatForJson\<close>, parsed back, yields
  the stored field values. The repository has no JSON parser, so the round trip is stated
  against the reader below, which follows the JSON grammar (RFC 8259) for the texts at
  hand: an object whose members have string or boolean values, with whitespace between
  tokens. A string ends at the first unescaped quotation mark; inside it a backslash
  starts an escape, and a control character (a byte below \<open>0x20\<close>) is not
  allowed. JSON text is UTF-8 (RFC 8259, section 8.1); the reader reads ASCII text only
  and fails on every byte from \<open>0x80\<close> on, so it accepts no text that is not
  well-formed UTF-8. The escapes with a fixed meaning are read; \<open>\\u\<close>
  escapes, numbers, \<open>null\<close>, arrays and nested objects are outside this fragment
  too and make the reader fail.
\<close>

datatype json_value = JString string | JBool bool

datatype json_token = TLBrace | TRBrace | TColon | TComma | TStr string | TTrue | TFalse

datatype lex_mode = Outside | InString string | InEscape string | InLiteral string json_token

definition json_whitespace :: "char \<Rightarrow> bool" where
  "json_whitespace c = (c = CHR '' '' \<or> c = CHR 0x09 \<or> c = CHR 0x0A \<or> c = CHR 0x0D)"

text \<open>A byte that may stand unescaped inside a JSON string, and stands for itself:
  an ASCII character (a byte below \<open>0x80\<close>) that is no control character, no
  quotation mark and no backslash.\<close>

definition json_plain :: "char \<Rightarrow> bool" where
  "json_plain c =
     (c \<noteq> DQ \<and> c \<noteq> BSLASH \<and> (32::nat) \<le> of_char c \<and> of_char c < (128::nat))"

definition json_unescape :: "char \<Rightarrow> char option" where
  "json_unescape c =
     (if c = DQ then Some DQ
      else if c = BSLASH then Some BSLASH
      else if c = CHR ''/'' then Some (CHR ''/'')
      else if c = CHR ''b'' then Some (CHR 0x08)
      else if c = CHR ''f'' then Some (CHR 0x0C)
      else if c = CHR ''n'' then Some (CHR 0x0A)
      else if c = CHR ''r'' then Some (CHR 0x0D)
      else if c = CHR ''t'' then Some (CHR 0x09)
      else None)"

text \<open>The lexer reads the text byte by byte; the mode says whether it is between
  tokens, inside a string (with the bytes read so far, last first), right after a
  backslash, or inside the literal \<open>true\<close> or \<open>false\<close> (with the bytes
  still expected).\<close>

fun json_lex :: "lex_mode \<Rightarrow> string \<Rightarrow> json_token list option" where
  "json_lex Outside [] = Some []"
| "json_lex Outside (c # cs) =
     (if json_whitespace c then json_lex Outside cs
      else if c = CHR ''{'' then map_option (Cons TLBrace) (json_lex Outside cs)
      else if c = CHR ''}'' then map_option (Cons TRBrace) (json_lex Outside cs)
      else if c = CHR '':'' then map_option (Cons TColon) (json_lex Outside cs)
      else if c = CHR '','' then map_option (Cons TComma) (json_lex Outside cs)
      else if c = DQ then json_lex (InString []) cs
      else if c = CHR ''t'' then json_lex (InLiteral ''rue'' TTrue) cs
      else if c = CHR ''f'' then json_lex (InLiteral ''alse'' TFalse) cs
      else None)"
| "json_lex (InString acc) [] = None"
| "json_lex (InString acc) (c # cs) =
     (if c = DQ then map_option (Cons (TStr (rev acc))) (json_lex Outside cs)
      else if c = BSLASH then json_lex (InEscape acc) cs
      else if json_plain c then json_lex (InString (c # acc)) cs
      else None)"
| "json_lex (InEscape acc) [] = None"
| "json_lex (InEscape acc) (c # cs) =
     (case json_unescape c of
        None \<Rightarrow> None
      | Some d \<Rightarrow> json_lex (InString (d # acc)) cs)"
| "json_lex (InLiteral es t) [] = None"
| "json_lex (InLiteral es t) (c # cs) =
     (case es of
        [] \<Rightarrow> None
      | e # es' \<Rightarrow>
          if c \<noteq> e then None
          else if es' = [] then map_option (Cons t) (json_lex Outside cs)
          else json_lex (InLiteral es' t) cs)"

definition json_value_of :: "json_token \<Rightarrow> json_value option" where
  "json_value_of t =
     (case t of
        TStr s \<Rightarrow> Some (JString s)
      | TTrue \<Rightarrow> Some (JBool True)
      | TFalse \<Rightarrow> Some (JBool False)
      | _ \<Rightarrow> None)"

text \<open>The members of an object after its opening brace, up to its closing brace,
  which must be the last token.\<close>

fun json_members :: "json_token list \<Rightarrow> (string \<times> json_value) list option" where
  "json_members (k # c # t # d # ts) =
     (case k of
        TStr key \<Rightarrow>
          (if c \<noteq> TColon then None
           else case json_value_of t of
                  None \<Rightarrow> None
                | Some v \<Rightarrow>
                    if d = TRBrace then (if ts = [] then Some [(key, v)] else None)
                    else if d = TComma then map_option (Cons (key, v)) (json_members ts)
                    else None)
      | _ \<Rightarrow> None)"
| "json_members ts = None"

definition json_parse :: "string \<Rightarrow> (string \<times> json_value) list option" where
  "json_parse s =
     (case json_lex Outside s of
        None \<Rightarrow> None
      | Some [] \<Rightarrow> None
      | Some (t # ts) \<Rightarrow>
          if t \<noteq> TLBrace then None
          else if ts = [TRBrace] then Some []
          else json_members ts)"

text \<open>A string that \<open>formatForJson\<close>, which copies its fields between
  quotation marks without escaping, can embed without changing its meaning.\<close>

definition json_plain_string :: "string \<Rightarrow> bool" where
  "json_plain_string s = list_all json_plain s"

section \<open>Basic facts\<close>

lemma string_find_None: "string_find s c = None \<longleftrightarrow> c \<notin> set s"
  by (induction s) auto

lemma map_subscript_upd:
  "map_subscript (m(k \<mapsto> v)) k = (v, m(k \<mapsto> v))"
  by (simp add: map_subscript_def)

lemma save_result: "fst (save user w) = user"
  by (simp add: save_def Let_def map_subscript_upd split: prod.split)

lemma save_users: "users (snd (save user w)) = (users w)(userId user \<mapsto> user)"
  by (simp add: save_def Let_def map_subscript_upd map_subscript_def print_def
      split: prod.split option.split)

lemma save_cout:
  "cout (snd (save user w)) =
     cout w @ ''UserRepository: Saving user '' @ name user @ '' ('' @ userId user
       @ '') to in-memory store...\<newline>''"
  by (simp add: save_def Let_def print_def split: prod.split)

lemma validate_verdict:
  "fst (validate user w) =
     (if name user = [] then
        Inl (invalid_argument ''Validation Error: User name cannot be blank.'')
      else if CHR ''@'' \<notin> set (email user) \<or> CHR ''.'' \<notin> set (email user) then
        Inl (invalid_argument
               (''Validation Error: Invalid email format for '' @ email user @ ''.''))
      else Inr ())"
  by (simp add: validate_def Let_def string_find_None)

lemma validate_users: "users (snd (validate user w)) = users w"
  by (simp add: validate_def Let_def print_def)

lemma validate_reject_cout:
  "fst (validate user w) = Inl e \<Longrightarrow>
   cout (snd (validate user w)) =
     cout w @ ''UserValidator: Validating user '' @ name user @ '' ('' @ userId user
       @ '')...\<newline>''"
  by (simp add: validate_def Let_def print_def split: if_splits)

lemma spec_email_shape_contains:
  assumes "spec_email_shape em"
  shows "CHR ''@'' \<in> set em" and "CHR ''.'' \<in> set em"
proof -
  from assms have dot: "CHR ''.'' \<in> set (dropWhile (\<lambda>c. c \<noteq> CHR ''@'') em)"
    by (simp add: spec_email_shape_def)
  then show "CHR ''.'' \<in> set em"
    by (rule set_dropWhileD)
  show "CHR ''@'' \<in> set em"
  proof (rule ccontr)
    assume "CHR ''@'' \<notin> set em"
    then have "dropWhile (\<lambda>c. c \<noteq> CHR ''@'') em = []"
      by (induction em) auto
    with dot show False by simp
  qed
qed

lemma createUser_accept:
  assumes "nm \<noteq> []" and "CHR ''@'' \<in> set em" and "CHR ''.'' \<in> set em"
  shows "fst (createUser uid nm em w) = Inr \<lparr>userId = uid, name = nm, email = em, isActive = True\<rparr>"
    and "users (snd (createUser uid nm em w)) =
           (users w)(uid \<mapsto> \<lparr>userId = uid, name = nm, email = em, isActive = True\<rparr>)"
proof -
  let ?u = "\<lparr>userId = uid, name = nm, email = em, isActive = True\<rparr>"
  obtain w1 where v: "validate ?u w = (Inr (), w1)" and w1: "users w1 = users w"
    using assms validate_verdict [of ?u w] validate_users [of ?u w]
    by (cases "validate ?u w") simp
  have c: "createUser uid nm em w = (Inr (fst (save ?u w1)), snd (save ?u w1))"
    by (simp add: createUser_def v split: prod.split)
  show "fst (createUser uid nm em w) = Inr ?u"
    by (simp add: c save_result)
  show "users (snd (createUser uid nm em w)) = (users w)(uid \<mapsto> ?u)"
    by (simp add: c save_users w1)
qed

lemma createUser_reject:
  assumes "fst (validate \<lparr>userId = uid, name = nm, email = em, isActive = True\<rparr> w) = Inl e"
  shows "createUser uid nm em w =
           (Inl e, snd (validate \<lparr>userId = uid, name = nm, email = em, isActive = True\<rparr> w))"
  using assms
  by (cases "validate \<lparr>userId = uid, name = nm, email = em, isActive = True\<rparr> w")
     (simp add: createUser_def)

lemma findById_result: "fst (findById uid w) = users w uid"
  by (simp add: findById_def Let_def print_def)

lemma findById_users: "users (snd (findById uid w)) = users w"
  by (simp add: findById_def Let_def print_def)

lemma activateUser_found:
  assumes "users w uid = Some user"
  shows "fst (activateUser uid w) = Inr (user\<lparr>isActive := True\<rparr>)"
    and "users (snd (activateUser uid w)) =
           (users w)(uid \<mapsto> user\<lparr>isActive := True\<rparr>,
                     userId user \<mapsto> user\<lparr>isActive := True\<rparr>)"
proof -
  let ?u = "user\<lparr>isActive := True\<rparr>"
  obtain w1 where f: "findById uid w = (Some user, w1)" and w1: "users w1 = users w"
    using assms findById_result [of uid w] findById_users [of uid w]
    by (cases "findById uid w") simp
  obtain w3 where s: "save ?u (w1\<lparr>users := (users w1)(uid \<mapsto> ?u)\<rparr>) = (?u, w3)"
    and w3: "users w3 = (users w1)(uid \<mapsto> ?u, userId user \<mapsto> ?u)"
    using save_result [of ?u "w1\<lparr>users := (users w1)(uid \<mapsto> ?u)\<rparr>"]
      save_users [of ?u "w1\<lparr>users := (users w1)(uid \<mapsto> ?u)\<rparr>"]
    by (cases "save ?u (w1\<lparr>users := (users w1)(uid \<mapsto> ?u)\<rparr>)") simp
  have a: "activateUser uid w = (Inr ?u, w3)"
    by (simp add: activateUser_def f Let_def s)
  show "fst (activateUser uid w) = Inr ?u"
    by (simp add: a)
  show "users (snd (activateUser uid w)) = (users w)(uid \<mapsto> ?u, userId user \<mapsto> ?u)"
    by (simp add: a w3 w1)
qed

lemma activateUser_missing:
  assumes "users w uid = None"
  shows "fst (activateUser uid w) =
           Inl (out_of_range (''User with ID '' @ uid @ '' not found.''))"
    and "users (snd (activateUser uid w)) = users w"
proof -
  obtain w1 where f: "findById uid w = (None, w1)" and w1: "users w1 = users w"
    using assms findById_result [of uid w] findById_users [of uid w]
    by (cases "findById uid w") simp
  show "fst (activateUser uid w) =
           Inl (out_of_range (''User with ID '' @ uid @ '' not found.''))"
    by (simp add: activateUser_def f)
  show "users (snd (activateUser uid w)) = users w"
    by (simp add: activateUser_def f w1)
qed

lemma getFormattedUserDetails_users:
  "users (snd (getFormattedUserDetails uid fmt w)) = users w"
  by (simp add: getFormattedUserDetails_def findById_def formatForConsole_def
      formatForJson_def Let_def print_def split: option.split)

section \<open>The validator's email rule\<close>

text \<open>
  Claim C1, as stated, asks that an accepted email has a \<open>.\<close> at a position after
  its \<open>@\<close>. The validator accepts the email \<open>a.b@c\<close> of a user with the
  name \<open>A\<close>, whose only \<open>.\<close> stands before the \<open>@\<close>.
\<close>

theorem C1_dot_before_at_counterexample:
  "fst (validate \<lparr>userId = ''u1'', name = ''A'', email = ''a.b@c'', isActive = True\<rparr>
          \<lparr>users = Map.empty, cout = []\<rparr>) = Inr ()
   \<and> \<not> spec_email_shape ''a.b@c''"
  by (simp add: validate_def Let_def print_def spec_email_shape_def)

text \<open>
  Claim C1, amended: once the name rule has passed, \<open>validate\<close> accepts exactly
  when the email contains \<open>@\<close> and contains \<open>.\<close>, each anywhere in the
  email; every other email is rejected with the exception \<open>std::invalid_argument\<close>
  whose message is \<open>Validation Error: Invalid email format for <email>.\<close>
\<close>

theorem C1_validate_email_rule:
  "name user \<noteq> [] \<Longrightarrow>
   fst (validate user w) =
     (if CHR ''@'' \<in> set (email user) \<and> CHR ''.'' \<in> set (email user) then Inr ()
      else Inl (invalid_argument
                  (''Validation Error: Invalid email format for '' @ email user @ ''.'')))"
  by (simp add: validate_verdict)

theorem C1_validate_email_rule_witness:
  "fst (validate \<lparr>userId = ''u1'', name = ''A'', email = ''a@b.c'', isActive = True\<rparr>
          \<lparr>users = Map.empty, cout = []\<rparr>) = Inr ()
   \<and> fst (validate \<lparr>userId = ''u1'', name = ''A'', email = ''a.b@c'', isActive = True\<rparr>
          \<lparr>users = Map.empty, cout = []\<rparr>) = Inr ()
   \<and> fst (validate \<lparr>userId = ''u1'', name = ''A'', email = ''abc'', isActive = True\<rparr>
          \<lparr>users = Map.empty, cout = []\<rparr>)
       = Inl (invalid_argument ''Validation Error: Invalid email format for abc.'')"
  using
    C1_validate_email_rule [of "\<lparr>userId = ''u1'', name = ''A'', email = ''a@b.c'', isActive = True\<rparr>"
      "\<lparr>users = Map.empty, cout = []\<rparr>"]
    C1_validate_email_rule [of "\<lparr>userId = ''u1'', name = ''A'', email = ''a.b@c'', isActive = True\<rparr>"
      "\<lparr>users = Map.empty, cout = []\<rparr>"]
    C1_validate_email_rule [of "\<lparr>userId = ''u1'', name = ''A'', email = ''abc'', isActive = True\<rparr>"
      "\<lparr>users = Map.empty, cout = []\<rparr>"]
  by simp

section \<open>Creating users\<close>

text \<open>
  Claim C2: for every id and every valid pair of the specification (non-empty name, email
  containing \<open>@\<close> then \<open>.\<close>), in every world, \<open>createUser\<close> returns the
  user built from its arguments, whose \<open>isActive\<close> is true, and \<open>findById\<close>
  on the resulting world returns a record with the same four field values.
\<close>

theorem C2_createUser_valid:
  "spec_valid_pair nm em \<Longrightarrow>
   fst (createUser uid nm em w) = Inr \<lparr>userId = uid, name = nm, email = em, isActive = True\<rparr>
   \<and> isActive \<lparr>userId = uid, name = nm, email = em, isActive = True\<rparr>
   \<and> fst (findById uid (snd (createUser uid nm em w)))
       = Some \<lparr>userId = uid, name = nm, email = em, isActive = True\<rparr>"
  by (simp add: spec_valid_pair_def createUser_accept spec_email_shape_contains findById_result)

theorem C2_createUser_valid_witness:
  "spec_valid_pair ''Alice Wonderland'' ''alice@example.com''
   \<and> fst (createUser ''u123'' ''Alice Wonderland'' ''alice@example.com''
            \<lparr>users = Map.empty, cout = []\<rparr>)
       = Inr \<lparr>userId = ''u123'', name = ''Alice Wonderland'', email = ''alice@example.com'',
              isActive = True\<rparr>
   \<and> fst (findById ''u123'' (snd (createUser ''u123'' ''Alice Wonderland'' ''alice@example.com''
            \<lparr>users = Map.empty, cout = []\<rparr>)))
       = Some \<lparr>userId = ''u123'', name = ''Alice Wonderland'', email = ''alice@example.com'',
              isActive = True\<rparr>"
proof -
  have v: "spec_valid_pair ''Alice Wonderland'' ''alice@example.com''"
    by (simp add: spec_valid_pair_def spec_email_shape_def)
  show ?thesis
    using v C2_createUser_valid [OF v, of "''u123''" "\<lparr>users = Map.empty, cout = []\<rparr>"]
    by simp
qed

text \<open>
  Claim C3, as stated, is about every pair that is not a valid pair of the specification.
  The pair (\<open>A\<close>, \<open>a.b@c\<close>) is not valid there, the id \<open>u1\<close> is absent from
  the empty store, and yet \<open>createUser\<close> returns the user and \<open>findById\<close>
  finds it afterwards.
\<close>

theorem C3_spec_invalid_pair_stored_counterexample:
  "\<not> spec_valid_pair ''A'' ''a.b@c''
   \<and> users \<lparr>users = Map.empty, cout = []\<rparr> ''u1'' = None
   \<and> fst (createUser ''u1'' ''A'' ''a.b@c'' \<lparr>users = Map.empty, cout = []\<rparr>)
       = Inr \<lparr>userId = ''u1'', name = ''A'', email = ''a.b@c'', isActive = True\<rparr>
   \<and> fst (findById ''u1'' (snd (createUser ''u1'' ''A'' ''a.b@c'' \<lparr>users = Map.empty, cout = []\<rparr>)))
       = Some \<lparr>userId = ''u1'', name = ''A'', email = ''a.b@c'', isActive = True\<rparr>"
  by (simp add: spec_valid_pair_def spec_email_shape_def createUser_accept findById_result)

text \<open>
  Claim C3, amended: for every id absent from the store and every pair that the validator
  rejects (an empty name, or an email without \<open>@\<close> or without \<open>.\<close>),
  \<open>createUser\<close> throws the validator's exception, the map of the repository is
  unchanged, the only output is the banner of \<open>validate\<close> (the banner of
  \<open>save\<close> is not printed: \<open>save\<close> is not run), and \<open>findById\<close>
  afterwards returns \<open>nullptr\<close>.
\<close>

theorem C3_createUser_rejected:
  "nm = [] \<or> CHR ''@'' \<notin> set em \<or> CHR ''.'' \<notin> set em \<Longrightarrow> users w uid = None \<Longrightarrow>
   fst (createUser uid nm em w)
     = Inl (invalid_argument
              (if nm = [] then ''Validation Error: User name cannot be blank.''
               else ''Validation Error: Invalid email format for '' @ em @ ''.''))
   \<and> users (snd (createUser uid nm em w)) = users w
   \<and> cout (snd (createUser uid nm em w))
       = cout w @ ''UserValidator: Validating user '' @ nm @ '' ('' @ uid @ '')...\<newline>''
   \<and> fst (findById uid (snd (createUser uid nm em w))) = None"
proof -
  let ?u = "\<lparr>userId = uid, name = nm, email = em, isActive = True\<rparr>"
  let ?msg = "if nm = [] then ''Validation Error: User name cannot be blank.''
               else ''Validation Error: Invalid email format for '' @ em @ ''.''"
  assume bad: "nm = [] \<or> CHR ''@'' \<notin> set em \<or> CHR ''.'' \<notin> set em" and absent: "users w uid = None"
  have v: "fst (validate ?u w) = Inl (invalid_argument ?msg)"
  proof (cases "nm = []")
    case True
    then show ?thesis by (simp add: validate_verdict)
  next
    case False
    with bad show ?thesis by (simp add: validate_verdict)
  qed
  have c: "createUser uid nm em w = (Inl (invalid_argument ?msg), snd (validate ?u w))"
    using v by (rule createUser_reject)
  have "fst (createUser uid nm em w) = Inl (invalid_argument ?msg)"
    by (simp only: c fst_conv)
  moreover have "users (snd (createUser uid nm em w)) = users w"
    by (simp only: c snd_conv validate_users)
  moreover have "cout (snd (createUser uid nm em w))
       = cout w @ ''UserValidator: Validating user '' @ nm @ '' ('' @ uid @ '')...\<newline>''"
    using validate_reject_cout [OF v] by (simp only: c snd_conv) simp
  moreover have "fst (findById uid (snd (createUser uid nm em w))) = None"
    by (simp only: c snd_conv findById_result validate_users absent)
  ultimately show ?thesis by blast
qed

theorem C3_createUser_rejected_witness:
  "fst (createUser ''u125'' [] ''invalid'' \<lparr>users = Map.empty, cout = []\<rparr>)
     = Inl (invalid_argument ''Validation Error: User name cannot be blank.'')
   \<and> fst (createUser ''u126'' ''Carol'' ''invalid'' \<lparr>users = Map.empty, cout = []\<rparr>)
     = Inl (invalid_argument ''Validation Error: Invalid email format for invalid.'')
   \<and> users (snd (createUser ''u126'' ''Carol'' ''invalid'' \<lparr>users = Map.empty, cout = []\<rparr>))
       = Map.empty
   \<and> cout (snd (createUser ''u126'' ''Carol'' ''invalid'' \<lparr>users = Map.empty, cout = []\<rparr>))
       = ''UserValidator: Validating user Carol (u126)...\<newline>''
   \<and> fst (findById ''u126'' (snd (createUser ''u126'' ''Carol'' ''invalid''
            \<lparr>users = Map.empty, cout = []\<rparr>))) = None"
  using
    C3_createUser_rejected [of "[]" "''invalid''" "\<lparr>users = Map.empty, cout = []\<rparr>" "''u125''"]
    C3_createUser_rejected [of "''Carol''" "''invalid''" "\<lparr>users = Map.empty, cout = []\<rparr>" "''u126''"]
  by simp

section \<open>Order of the validation rules\<close>

text \<open>
  Claim C6: the rules are applied in order and the first failure wins. For every user
  with an empty name, whatever the email, the exception is the one of the name rule (its
  message in the code is \<open>Validation Error: User name cannot be blank.\<close>). In
  particular \<open>createUser("u125", "", "invalid")\<close> throws it, although the email
  \<open>invalid\<close> fails the email rule too, as the same call with a non-empty name
  shows.
\<close>

theorem C6_name_rule_first:
  "name user = [] \<Longrightarrow>
   fst (validate user w) = Inl (invalid_argument ''Validation Error: User name cannot be blank.'')
   \<and> fst (createUser ''u125'' [] ''invalid'' w)
       = Inl (invalid_argument ''Validation Error: User name cannot be blank.'')
   \<and> fst (createUser ''u125'' ''x'' ''invalid'' w)
       = Inl (invalid_argument ''Validation Error: Invalid email format for invalid.'')"
proof -
  assume "name user = []"
  then have "fst (validate user w)
      = Inl (invalid_argument ''Validation Error: User name cannot be blank.'')"
    by (simp add: validate_verdict)
  moreover have "fst (createUser ''u125'' [] ''invalid'' w)
       = Inl (invalid_argument ''Validation Error: User name cannot be blank.'')"
    by (subst createUser_reject) (simp_all add: validate_verdict)
  moreover have "fst (createUser ''u125'' ''x'' ''invalid'' w)
       = Inl (invalid_argument ''Validation Error: Invalid email format for invalid.'')"
    by (subst createUser_reject) (simp_all add: validate_verdict)
  ultimately show ?thesis by simp
qed

theorem C6_name_rule_first_witness:
  "fst (validate \<lparr>userId = ''u125'', name = [], email = ''invalid'', isActive = True\<rparr>
          \<lparr>users = Map.empty, cout = []\<rparr>)
     = Inl (invalid_argument ''Validation Error: User name cannot be blank.'')
   \<and> fst (validate \<lparr>userId = ''u126'', name = [], email = ''a@b.c'', isActive = True\<rparr>
          \<lparr>users = Map.empty, cout = []\<rparr>)
     = Inl (invalid_argument ''Validation Error: User name cannot be blank.'')"
  using
    C6_name_rule_first [of "\<lparr>userId = ''u125'', name = [], email = ''invalid'', isActive = True\<rparr>"
      "\<lparr>users = Map.empty, cout = []\<rparr>"]
    C6_name_rule_first [of "\<lparr>userId = ''u126'', name = [], email = ''a@b.c'', isActive = True\<rparr>"
      "\<lparr>users = Map.empty, cout = []\<rparr>"]
  by simp

section \<open>Activating users\<close>

text \<open>
  Claim C7: for every id whose stored record has \<open>isActive = true\<close>,
  \<open>activateUser\<close> returns a user equal to the stored record, the record under the
  id is the same afterwards, and a second call returns the same user again.
\<close>

theorem C7_activateUser_idempotent:
  "users w uid = Some user \<Longrightarrow> isActive user \<Longrightarrow>
   fst (activateUser uid w) = Inr user
   \<and> users (snd (activateUser uid w)) uid = Some user
   \<and> fst (activateUser uid (snd (activateUser uid w))) = Inr user"
proof -
  assume found: "users w uid = Some user" and active: "isActive user"
  from active have u: "user\<lparr>isActive := True\<rparr> = user"
    by simp
  have r: "fst (activateUser uid w) = Inr user"
    using activateUser_found(1) [OF found] by (simp only: u)
  have s: "users (snd (activateUser uid w)) uid = Some user"
    using activateUser_found(2) [OF found] by (simp only: u) simp
  have "fst (activateUser uid (snd (activateUser uid w))) = Inr user"
    using activateUser_found(1) [OF s] by (simp only: u)
  with r s show ?thesis by simp
qed

theorem C7_activateUser_idempotent_witness:
  "fst (activateUser ''u124''
          \<lparr>users = [''u124'' \<mapsto> \<lparr>userId = ''u124'', name = ''Bob The Builder'',
                                 email = ''bob@example.net'', isActive = True\<rparr>], cout = []\<rparr>)
     = Inr \<lparr>userId = ''u124'', name = ''Bob The Builder'', email = ''bob@example.net'',
            isActive = True\<rparr>
   \<and> fst (activateUser ''u124'' (snd (activateUser ''u124''
          \<lparr>users = [''u124'' \<mapsto> \<lparr>userId = ''u124'', name = ''Bob The Builder'',
                                 email = ''bob@example.net'', isActive = True\<rparr>], cout = []\<rparr>)))
     = Inr \<lparr>userId = ''u124'', name = ''Bob The Builder'', email = ''bob@example.net'',
            isActive = True\<rparr>"
  using C7_activateUser_idempotent [of
      "\<lparr>users = [''u124'' \<mapsto> \<lparr>userId = ''u124'', name = ''Bob The Builder'',
                                 email = ''bob@example.net'', isActive = True\<rparr>], cout = []\<rparr>"
      "''u124''"
      "\<lparr>userId = ''u124'', name = ''Bob The Builder'', email = ''bob@example.net'',
            isActive = True\<rparr>"]
  by simp

text \<open>
  Claim C8: for every id that is not in the store, \<open>activateUser\<close> throws
  \<open>std::out_of_range\<close> (not found) and the map of the repository afterwards is the
  map before the call.
\<close>

theorem C8_activateUser_unknown:
  "users w uid = None \<Longrightarrow>
   fst (activateUser uid w) = Inl (out_of_range (''User with ID '' @ uid @ '' not found.''))
   \<and> users (snd (activateUser uid w)) = users w"
  by (simp add: activateUser_missing)

theorem C8_activateUser_unknown_witness:
  "fst (activateUser ''u999'' \<lparr>users = Map.empty, cout = []\<rparr>)
     = Inl (out_of_range ''User with ID u999 not found.'')
   \<and> users (snd (activateUser ''u999'' \<lparr>users = Map.empty, cout = []\<rparr>)) = Map.empty"
  using C8_activateUser_unknown [of "\<lparr>users = Map.empty, cout = []\<rparr>" "''u999''"]
  by simp

section \<open>Formats\<close>

text \<open>
  Claim C9: for every stored user and every format other than \<open>console\<close> and
  \<open>json\<close>, \<open>getFormattedUserDetails\<close> throws
  \<open>std::invalid_argument\<close> with the message \<open>Unsupported format: <format>\<close>
  (an exception the caller can catch; nothing is rendered and the store is unchanged).
  A call without a format is the call with \<open>console\<close>, and renders the console
  block.
\<close>

theorem C9_unsupported_format:
  "users w uid = Some user \<Longrightarrow> f \<noteq> ''console'' \<Longrightarrow> f \<noteq> ''json'' \<Longrightarrow>
   fst (getFormattedUserDetails uid (Some f) w)
     = Inl (invalid_argument (''Unsupported format: '' @ f))
   \<and> users (snd (getFormattedUserDetails uid (Some f) w)) = users w
   \<and> getFormattedUserDetails uid None w = getFormattedUserDetails uid (Some ''console'') w
   \<and> fst (getFormattedUserDetails uid None w)
       = Inr (''User ID: '' @ userId user @ ''\<newline>Name: '' @ name user
               @ ''\<newline>Email: '' @ email user @ ''\<newline>Status: ''
               @ (if isActive user then ''Active'' else ''Inactive''))"
proof -
  assume found: "users w uid = Some user" and f: "f \<noteq> ''console''" "f \<noteq> ''json''"
  obtain w1 where l: "findById uid w = (Some user, w1)"
    using found findById_result [of uid w] by (cases "findById uid w") simp
  have "fst (getFormattedUserDetails uid (Some f) w)
     = Inl (invalid_argument (''Unsupported format: '' @ f))"
    using f by (simp add: getFormattedUserDetails_def l)
  moreover have "getFormattedUserDetails uid None w
      = getFormattedUserDetails uid (Some ''console'') w"
    by (simp add: getFormattedUserDetails_def)
  moreover have "fst (getFormattedUserDetails uid None w)
       = Inr (''User ID: '' @ userId user @ ''\<newline>Name: '' @ name user
               @ ''\<newline>Email: '' @ email user @ ''\<newline>Status: ''
               @ (if isActive user then ''Active'' else ''Inactive''))"
    by (simp add: getFormattedUserDetails_def l formatForConsole_def Let_def)
  ultimately show ?thesis
    by (simp add: getFormattedUserDetails_users)
qed

theorem C9_unsupported_format_witness:
  "fst (getFormattedUserDetails ''u124'' (Some ''xml'')
          \<lparr>users = [''u124'' \<mapsto> \<lparr>userId = ''u124'', name = ''Bob The Builder'',
                                 email = ''bob@example.net'', isActive = True\<rparr>], cout = []\<rparr>)
     = Inl (invalid_argument ''Unsupported format: xml'')
   \<and> fst (getFormattedUserDetails ''u124'' None
          \<lparr>users = [''u124'' \<mapsto> \<lparr>userId = ''u124'', name = ''Bob The Builder'',
                                 email = ''bob@example.net'', isActive = True\<rparr>], cout = []\<rparr>)
     = Inr ''User ID: u124\<newline>Name: Bob The Builder\<newline>Email: bob@example.net\<newline>Status: Active''"
proof -
  let ?bob = "\<lparr>userId = ''u124'', name = ''Bob The Builder'', email = ''bob@example.net'',
            isActive = True\<rparr>"
  let ?w = "\<lparr>users = [''u124'' \<mapsto> ?bob], cout = []\<rparr>"
  have stored: "users ?w ''u124'' = Some ?bob"
    by simp
  have other: "''xml'' \<noteq> ''console''" "''xml'' \<noteq> ''json''"
    by simp_all
  note t = C9_unsupported_format [OF stored other]
  from t have "fst (getFormattedUserDetails ''u124'' (Some ''xml'') ?w)
      = Inl (invalid_argument (''Unsupported format: '' @ ''xml''))"
    by (rule conjunct1)
  moreover from t have "fst (getFormattedUserDetails ''u124'' None ?w)
       = Inr (''User ID: '' @ userId ?bob @ ''\<newline>Name: '' @ name ?bob
               @ ''\<newline>Email: '' @ email ?bob @ ''\<newline>Status: ''
               @ (if isActive ?bob then ''Active'' else ''Inactive''))"
    by (elim conjE)
  ultimately show ?thesis
    by simp
qed

section \<open>Creating a user under an id that is already stored\<close>

text \<open>
  Claim C10: for every id that is already in the store and every valid pair,
  \<open>createUser\<close> throws nothing: it returns the newly built user, and the store
  afterwards is the store before with the record under that id replaced by the new
  user.
\<close>

theorem C10_createUser_overwrites:
  "users w uid = Some old \<Longrightarrow> spec_valid_pair nm em \<Longrightarrow>
   fst (createUser uid nm em w) = Inr \<lparr>userId = uid, name = nm, email = em, isActive = True\<rparr>
   \<and> users (snd (createUser uid nm em w))
       = (users w)(uid \<mapsto> \<lparr>userId = uid, name = nm, email = em, isActive = True\<rparr>)
   \<and> fst (findById uid (snd (createUser uid nm em w)))
       = Some \<lparr>userId = uid, name = nm, email = em, isActive = True\<rparr>"
  by (simp add: spec_valid_pair_def createUser_accept spec_email_shape_contains findById_result)

theorem C10_createUser_overwrites_witness:
  "fst (createUser ''u124'' ''Robert'' ''rob@example.org''
          \<lparr>users = [''u124'' \<mapsto> \<lparr>userId = ''u124'', name = ''Bob The Builder'',
                                 email = ''bob@example.net'', isActive = False\<rparr>], cout = []\<rparr>)
     = Inr \<lparr>userId = ''u124'', name = ''Robert'', email = ''rob@example.org'', isActive = True\<rparr>
   \<and> fst (findById ''u124'' (snd (createUser ''u124'' ''Robert'' ''rob@example.org''
          \<lparr>users = [''u124'' \<mapsto> \<lparr>userId = ''u124'', name = ''Bob The Builder'',
                                 email = ''bob@example.net'', isActive = False\<rparr>], cout = []\<rparr>)))
     = Some \<lparr>userId = ''u124'', name = ''Robert'', email = ''rob@example.org'', isActive = True\<rparr>"
proof -
  have v: "spec_valid_pair ''Robert'' ''rob@example.org''"
    by (simp add: spec_valid_pair_def spec_email_shape_def)
  show ?thesis
    using C10_createUser_overwrites [OF _ v, of
      "\<lparr>users = [''u124'' \<mapsto> \<lparr>userId = ''u124'', name = ''Bob The Builder'',
                                 email = ''bob@example.net'', isActive = False\<rparr>], cout = []\<rparr>"
      "''u124''"
      "\<lparr>userId = ''u124'', name = ''Bob The Builder'', email = ''bob@example.net'',
            isActive = False\<rparr>"]
    by simp
qed

section \<open>Stored users are valid users\<close>

lemma createUser_users_cases:
  "users (snd (createUser uid nm em w)) = users w
   \<or> (nm \<noteq> [] \<and> CHR ''@'' \<in> set em \<and> CHR ''.'' \<in> set em
      \<and> users (snd (createUser uid nm em w))
          = (users w)(uid \<mapsto> \<lparr>userId = uid, name = nm, email = em, isActive = True\<rparr>))"
proof (cases "nm \<noteq> [] \<and> CHR ''@'' \<in> set em \<and> CHR ''.'' \<in> set em")
  case True
  then show ?thesis by (simp add: createUser_accept)
next
  case False
  let ?u = "\<lparr>userId = uid, name = nm, email = em, isActive = True\<rparr>"
  have "\<exists>e. fst (validate ?u w) = Inl e"
  proof (cases "nm = []")
    case True
    then show ?thesis by (simp add: validate_verdict)
  next
    case nonempty: False
    with False show ?thesis by (simp add: validate_verdict)
  qed
  then obtain e where "fst (validate ?u w) = Inl e" ..
  then have "createUser uid nm em w = (Inl e, snd (validate ?u w))"
    by (rule createUser_reject)
  then show ?thesis by (simp add: validate_users)
qed

lemma activateUser_users_cases:
  "users (snd (activateUser uid w)) = users w
   \<or> (\<exists>user. users w uid = Some user
        \<and> users (snd (activateUser uid w))
            = (users w)(uid \<mapsto> user\<lparr>isActive := True\<rparr>,
                        userId user \<mapsto> user\<lparr>isActive := True\<rparr>))"
  by (cases "users w uid") (simp_all add: activateUser_missing activateUser_found)

lemma stored_valid_handle: "stored_valid w \<Longrightarrow> stored_valid (handle r w)"
proof (cases r)
  case (CreateUser uid nm em)
  assume "stored_valid w"
  then show ?thesis
    using createUser_users_cases [of uid nm em w]
    by (auto simp: CreateUser stored_valid_def split: if_splits)
next
  case (GetFormattedUserDetails uid fmt)
  assume "stored_valid w"
  then show ?thesis
    by (simp add: GetFormattedUserDetails stored_valid_def getFormattedUserDetails_users)
next
  case (ActivateUser uid)
  assume "stored_valid w"
  then show ?thesis
    using activateUser_users_cases [of uid w]
    by (auto simp: ActivateUser stored_valid_def split: if_splits)
qed

lemma stored_valid_run: "stored_valid w \<Longrightarrow> stored_valid (run rs w)"
  by (induction rs arbitrary: w) (simp_all add: stored_valid_handle)

text \<open>
  Claim C5: in every world reached from an empty store by calls of \<open>createUser\<close>,
  \<open>getFormattedUserDetails\<close> and \<open>activateUser\<close>, every record held by
  the repository is one that \<open>validate\<close> accepts.
\<close>

theorem C5_stored_users_valid:
  "users w0 = Map.empty \<Longrightarrow> users (run rs w0) k = Some user \<Longrightarrow>
   fst (validate user w) = Inr ()"
proof -
  assume "users w0 = Map.empty" and stored: "users (run rs w0) k = Some user"
  then have "stored_valid w0"
    by (simp add: stored_valid_def)
  then have "stored_valid (run rs w0)"
    by (rule stored_valid_run)
  with stored show ?thesis
    by (simp add: stored_valid_def validate_verdict)
qed

theorem C5_stored_users_valid_witness:
  "users (run [CreateUser ''u124'' ''Bob The Builder'' ''bob@example.net'',
               CreateUser ''u125'' [] ''invalid'',
               GetFormattedUserDetails ''u124'' (Some ''json''),
               ActivateUser ''u124'']
            \<lparr>users = Map.empty, cout = []\<rparr>) ''u124''
     = Some \<lparr>userId = ''u124'', name = ''Bob The Builder'', email = ''bob@example.net'',
             isActive = True\<rparr>
   \<and> fst (validate \<lparr>userId = ''u124'', name = ''Bob The Builder'', email = ''bob@example.net'',
                     isActive = True\<rparr> \<lparr>users = Map.empty, cout = []\<rparr>) = Inr ()"
proof -
  let ?rs = "[CreateUser ''u124'' ''Bob The Builder'' ''bob@example.net'',
               CreateUser ''u125'' [] ''invalid'',
               GetFormattedUserDetails ''u124'' (Some ''json''),
               ActivateUser ''u124'']"
  let ?bob = "\<lparr>userId = ''u124'', name = ''Bob The Builder'', email = ''bob@example.net'',
             isActive = True\<rparr>"
  let ?w0 = "\<lparr>users = Map.empty, cout = []\<rparr>"
  have init: "users ?w0 = Map.empty"
    by simp
  have stored: "users (run ?rs ?w0) ''u124'' = Some ?bob"
    by (simp add: createUser_def validate_def save_def findById_def activateUser_def
        getFormattedUserDetails_def formatForJson_def map_subscript_def print_def Let_def)
  show ?thesis
    using stored C5_stored_users_valid [OF init stored, of ?w0]
    by (simp only: simp_thms)
qed

section \<open>The JSON rendering read back\<close>

lemma json_lex_plain_string:
  "list_all json_plain s \<Longrightarrow>
   json_lex (InString acc) (s @ DQ # rest)
     = map_option (Cons (TStr (rev acc @ s))) (json_lex Outside rest)"
  by (induction s arbitrary: acc) (simp_all add: json_plain_def)

lemma json_lex_formatForJson:
  assumes "json_plain_string (userId user)" "json_plain_string (name user)"
    "json_plain_string (email user)"
  shows "json_lex Outside (fst (formatForJson user w))
     = Some [TLBrace, TStr ''id'', TColon, TStr (userId user), TComma,
             TStr ''name'', TColon, TStr (name user), TComma,
             TStr ''email'', TColon, TStr (email user), TComma,
             TStr ''active'', TColon, (if isActive user then TTrue else TFalse), TRBrace]"
  using assms
  by (simp add: formatForJson_def Let_def json_plain_string_def
      json_lex_plain_string [where acc = "[]", simplified]
      json_whitespace_def json_plain_def)

lemma json_parse_formatForJson:
  assumes "json_plain_string (userId user)" "json_plain_string (name user)"
    "json_plain_string (email user)"
  shows "json_parse (fst (formatForJson user w))
     = Some [(''id'', JString (userId user)), (''name'', JString (name user)),
             (''email'', JString (email user)), (''active'', JBool (isActive user))]"
  by (simp add: json_parse_def json_lex_formatForJson [OF assms] json_value_of_def)

text \<open>
  Claim C4, as stated, is about every stored user. \<open>formatForJson\<close> escapes
  nothing: the user with the name of two backslashes, which \<open>createUser\<close>
  accepts and stores, is rendered with these two bytes between the quotation marks, and
  the text read back has a name of one backslash.
\<close>

theorem C4_backslash_name_counterexample:
  "fst (createUser ''u1'' [BSLASH, BSLASH] ''a@b.c'' \<lparr>users = Map.empty, cout = []\<rparr>)
     = Inr \<lparr>userId = ''u1'', name = [BSLASH, BSLASH], email = ''a@b.c'', isActive = True\<rparr>
   \<and> fst (getFormattedUserDetails ''u1'' (Some ''json'')
            (snd (createUser ''u1'' [BSLASH, BSLASH] ''a@b.c'' \<lparr>users = Map.empty, cout = []\<rparr>)))
       = Inr (''{'' @ [DQ] @ ''id'' @ [DQ] @ '':'' @ [DQ] @ ''u1'' @ [DQ] @ '', ''
               @ [DQ] @ ''name'' @ [DQ] @ '':'' @ [DQ] @ [BSLASH, BSLASH] @ [DQ] @ '', ''
               @ [DQ] @ ''email'' @ [DQ] @ '':'' @ [DQ] @ ''a@b.c'' @ [DQ] @ '', ''
               @ [DQ] @ ''active'' @ [DQ] @ '':true}'')
   \<and> json_parse (''{'' @ [DQ] @ ''id'' @ [DQ] @ '':'' @ [DQ] @ ''u1'' @ [DQ] @ '', ''
               @ [DQ] @ ''name'' @ [DQ] @ '':'' @ [DQ] @ [BSLASH, BSLASH] @ [DQ] @ '', ''
               @ [DQ] @ ''email'' @ [DQ] @ '':'' @ [DQ] @ ''a@b.c'' @ [DQ] @ '', ''
               @ [DQ] @ ''active'' @ [DQ] @ '':true}'')
       = Some [(''id'', JString ''u1''), (''name'', JString [BSLASH]),
               (''email'', JString ''a@b.c''), (''active'', JBool True)]
   \<and> JString [BSLASH] \<noteq> JString [BSLASH, BSLASH]"
  by (simp add: createUser_def validate_def save_def findById_def
      getFormattedUserDetails_def formatForJson_def map_subscript_def print_def Let_def
      json_parse_def json_whitespace_def json_plain_def json_unescape_def json_value_of_def)

text \<open>A quotation mark in a field ends the string early, and the text is not an
  object at all.\<close>

lemma formatForJson_quote_unreadable:
  "json_parse (fst (formatForJson
       \<lparr>userId = ''u2'', name = [CHR ''a'', DQ, CHR ''b''], email = ''a@b.c'', isActive = True\<rparr> w))
     = None"
  by (simp add: formatForJson_def Let_def json_parse_def json_whitespace_def json_plain_def
      json_unescape_def json_value_of_def)

text \<open>A byte from \<open>0x80\<close> on in a field is copied as it is; such a field is
  not plain, and the reader does not read the text (a lone byte \<open>0xFF\<close> is not
  UTF-8).\<close>

lemma formatForJson_high_byte_unreadable:
  "\<not> json_plain_string [CHR 0xFF]
   \<and> json_parse (fst (formatForJson
         \<lparr>userId = ''u3'', name = [CHR 0xFF], email = ''a@b.c'', isActive = True\<rparr> w))
       = None"
  by (simp add: formatForJson_def Let_def json_parse_def json_whitespace_def json_plain_def
      json_plain_string_def json_unescape_def json_value_of_def)

text \<open>
  Claim C4, amended: for every stored user whose id, name and email are ASCII text (every
  byte below \<open>0x80\<close>) with no quotation mark, no backslash and no control
  character, \<open>getFormattedUserDetails\<close> with
  the format \<open>json\<close> returns a text that reads back as an object with exactly the
  members \<open>id\<close>, \<open>name\<close>, \<open>email\<close> (strings) and \<open>active\<close>
  (a boolean literal), in this order, with the values of the stored record.
\<close>

theorem C4_json_round_trip:
  "users w uid = Some user \<Longrightarrow>
   json_plain_string (userId user) \<Longrightarrow> json_plain_string (name user) \<Longrightarrow>
   json_plain_string (email user) \<Longrightarrow>
   (\<exists>s. fst (getFormattedUserDetails uid (Some ''json'') w) = Inr s
        \<and> json_parse s
            = Some [(''id'', JString (userId user)), (''name'', JString (name user)),
                    (''email'', JString (email user)), (''active'', JBool (isActive user))])"
proof -
  assume found: "users w uid = Some user"
    and plain: "json_plain_string (userId user)" "json_plain_string (name user)"
      "json_plain_string (email user)"
  obtain w1 where l: "findById uid w = (Some user, w1)"
    using found findById_result [of uid w] by (cases "findById uid w") simp
  have "fst (getFormattedUserDetails uid (Some ''json'') w) = Inr (fst (formatForJson user w1))"
    by (simp add: getFormattedUserDetails_def l split: prod.split)
  with json_parse_formatForJson [OF plain, of w1] show ?thesis
    by simp
qed

theorem C4_json_round_trip_witness:
  "\<exists>s. fst (getFormattedUserDetails ''u124'' (Some ''json'')
              \<lparr>users = [''u124'' \<mapsto> \<lparr>userId = ''u124'', name = ''Bob The Builder'',
                                     email = ''bob@example.net'', isActive = True\<rparr>],
               cout = []\<rparr>) = Inr s
       \<and> json_parse s
           = Some [(''id'', JString ''u124''), (''name'', JString ''Bob The Builder''),
                   (''email'', JString ''bob@example.net''), (''active'', JBool True)]"
proof -
  let ?bob = "\<lparr>userId = ''u124'', name = ''Bob The Builder'', email = ''bob@example.net'',
               isActive = True\<rparr>"
  let ?w = "\<lparr>users = [''u124'' \<mapsto> ?bob], cout = []\<rparr>"
  have stored: "users ?w ''u124'' = Some ?bob"
    by simp
  have plain: "json_plain_string (userId ?bob)" "json_plain_string (name ?bob)"
    "json_plain_string (email ?bob)"
    by (simp_all add: json_plain_string_def json_plain_def)
  show ?thesis
    using C4_json_round_trip [OF stored plain] by simp
qed

end
